theory Spec2Isabelle
  imports Main
begin

section \<open>Tables\<close>

text \<open>
  The survey explorer \<^verbatim>\<open>vis.py\<close> is one script, \<^verbatim>\<open>main\<close>, run from top to bottom
  on every user interaction. It works on a pandas data frame. A frame is modelled by its
  column labels, its row labels (\<^verbatim>\<open>df.index\<close>) and its rows, each row holding one cell
  per column, in column order. A cell is missing (\<^verbatim>\<open>NaN\<close>), a number or a text; the
  script only tests cells for \<^verbatim>\<open>NaN\<close> and prints them, so numbers are not told apart
  further.
\<close>

datatype cell = NaN | NumV int | StrV string

record dataframe =
  columns :: "string list"
  row_labels :: "cell list"
  rows :: "cell list list"

text \<open>
  What the CSV reader returns: at least one column, column labels made unique (the
  reader renames repeated header fields), one row label for each row, every row as wide
  as the header.
\<close>

definition wf_table :: "dataframe \<Rightarrow> bool" where
  "wf_table df =
     (columns df \<noteq> [] \<and> distinct (columns df) \<and>
      length (row_labels df) = length (rows df) \<and>
      list_all (\<lambda>r. length r = length (columns df)) (rows df))"

text \<open>
  The row labels are the positions \<open>0..N-1\<close>. \<^verbatim>\<open>pd.read_csv\<close> gives these labels to a
  file whose records are no longer than its header; when the records have one field
  more than the header, it takes the first field of each record as the label of the row.
\<close>

definition default_index :: "dataframe \<Rightarrow> bool" where
  "default_index df = (row_labels df = map (\<lambda>i. NumV (int i)) [0..<length (rows df)])"

datatype error =
  ParseError | ValueError | KeyError | IndexError | TypeError | StreamlitAPIException

text \<open>\<^verbatim>\<open>pd.isna(val)\<close>\<close>

definition isna :: "cell \<Rightarrow> bool" where
  "isna val = (val = NaN)"

text \<open>\<^verbatim>\<open>df.columns.get_loc(label)\<close>: the position of a label.\<close>

fun get_loc :: "string list \<Rightarrow> string \<Rightarrow> nat option" where
  "get_loc [] label = None"
| "get_loc (c # cs) label = (if c = label then Some 0 else map_option Suc (get_loc cs label))"

text \<open>
  \<^verbatim>\<open>df.iloc[i]\<close>: the row at a position, as a series labelled by the columns. The
  script passes what the row selector returns, a row label or \<^verbatim>\<open>None\<close>. pandas
  rejects what is not an integer (\<^verbatim>\<open>TypeError\<close>), counts a negative integer from the
  end, and rejects an integer outside \<open>-N..N-1\<close> (\<^verbatim>\<open>IndexError\<close>).
\<close>

definition iloc :: "dataframe \<Rightarrow> cell option \<Rightarrow> error + cell list" where
  "iloc df i =
     (case i of
        None \<Rightarrow> Inl TypeError
      | Some NaN \<Rightarrow> Inl TypeError
      | Some (StrV t) \<Rightarrow> Inl TypeError
      | Some (NumV k) \<Rightarrow>
          (let n = int (length (rows df))
           in if 0 \<le> k \<and> k < n then Inr (rows df ! nat k)
              else if - n \<le> k \<and> k < 0 then Inr (rows df ! nat (n + k))
              else Inl IndexError))"

text \<open>
  \<^verbatim>\<open>row[label]\<close> on such a series: the cell under the label, \<^verbatim>\<open>KeyError\<close> when the
  series has no such label. The label comes from a widget and may be \<^verbatim>\<open>None\<close>.
\<close>

definition series_get :: "string list \<Rightarrow> cell list \<Rightarrow> string option \<Rightarrow> error + cell" where
  "series_get cols row label =
     (case label of
        None \<Rightarrow> Inl KeyError
      | Some l \<Rightarrow> (case map_of (zip cols row) l of None \<Rightarrow> Inl KeyError | Some v \<Rightarrow> Inr v))"

section \<open>Table loader (lines 56-59)\<close>

text \<open>
  \<^verbatim>\<open>df.reset_index(inplace=True)\<close> moves the row labels of the frame into a new first
  column and gives the rows the labels \<open>0..N-1\<close>. pandas names the new column
  \<^verbatim>\<open>index\<close>, or \<^verbatim>\<open>level_0\<close> when the frame already has a column \<^verbatim>\<open>index\<close>, and
  refuses (\<^verbatim>\<open>ValueError\<close>) to insert a label that exists.
\<close>

definition reset_index :: "dataframe \<Rightarrow> error + dataframe" where
  "reset_index df =
     (let name = (if ''index'' \<notin> set (columns df) then ''index'' else ''level_0'')
      in if name \<in> set (columns df) then Inl ValueError
         else Inr \<lparr>columns = name # columns df,
                   row_labels = map (\<lambda>i. NumV (int i)) [0..<length (rows df)],
                   rows = map (\<lambda>(l, r). l # r) (zip (row_labels df) (rows df))\<rparr>)"

text \<open>\<^verbatim>\<open>df.rename(columns={'index': 'Row_ID'}, inplace=True)\<close>\<close>

definition rename_index :: "dataframe \<Rightarrow> dataframe" where
  "rename_index df =
     df\<lparr>columns := map (\<lambda>c. if c = ''index'' then ''Row_ID'' else c) (columns df)\<rparr>"

definition load_table :: "dataframe \<Rightarrow> error + dataframe" where
  "load_table df =
     (if ''Row_ID'' \<notin> set (columns df)
      then (case reset_index df of Inl e \<Rightarrow> Inl e | Inr df' \<Rightarrow> Inr (rename_index df'))
      else Inr df)"


section \<open>Default identifier column (lines 64-66)\<close>

text \<open>
  \<^verbatim>\<open>col.lower()\<close> and \<^verbatim>\<open>"name" in ...\<close>. Strings are sequences of bytes; lowering
  touches the letters \<open>A..Z\<close> only (it sets the bit of value 32), which is all that
  matters for finding the ASCII word \<^verbatim>\<open>name\<close>.
\<close>

definition isupper :: "char \<Rightarrow> bool" where
  "isupper c = (65 \<le> (of_char c :: nat) \<and> (of_char c :: nat) \<le> 90)"

fun lower_char :: "char \<Rightarrow> char" where
  "lower_char (Char b0 b1 b2 b3 b4 b5 b6 b7) =
     (if isupper (Char b0 b1 b2 b3 b4 b5 b6 b7) then Char b0 b1 b2 b3 b4 True b6 b7
      else Char b0 b1 b2 b3 b4 b5 b6 b7)"

definition lower :: "string \<Rightarrow> string" where
  "lower s = map lower_char s"

fun startswith :: "string \<Rightarrow> string \<Rightarrow> bool" where
  "startswith s [] = True"
| "startswith [] (p # ps) = False"
| "startswith (c # cs) (p # ps) = (c = p \<and> startswith cs ps)"

fun contains :: "string \<Rightarrow> string \<Rightarrow> bool" where
  "contains [] sub = (sub = [])"
| "contains (c # cs) sub = (startswith (c # cs) sub \<or> contains cs sub)"

definition possible_names :: "dataframe \<Rightarrow> string list" where
  "possible_names df = filter (\<lambda>col. contains (lower col) ''name'') (columns df)"

definition default_name_index :: "dataframe \<Rightarrow> error + nat" where
  "default_name_index df =
     (case possible_names df of
        [] \<Rightarrow> Inr 0
      | p # _ \<Rightarrow> (case get_loc (columns df) p of None \<Rightarrow> Inl KeyError | Some k \<Rightarrow> Inr k))"

section \<open>Widgets\<close>

text \<open>
  \<^verbatim>\<open>st.selectbox(label, options, index)\<close> of the widget library (Streamlit). It raises
  \<^verbatim>\<open>StreamlitAPIException\<close> when the index is neither an integer nor \<^verbatim>\<open>None\<close>
  ("Selectbox Value has invalid type"), and when the options are not empty and the index
  is outside them ("Selectbox index must be greater than or equal to 0 and less than the
  length of options"). Otherwise it returns the option the user has picked in the
  widget, or else the option at \<^verbatim>\<open>index\<close>; with no options, or with the index
  \<^verbatim>\<open>None\<close> and no pick, it returns \<^verbatim>\<open>None\<close>. The user's pick is an input of the pass.
  The first check matters for the row selector only, whose index is a value of the
  session state; the other selectors are given integers.
\<close>

definition index_arg :: "cell option \<Rightarrow> error + int option" where
  "index_arg v =
     (case v of
        None \<Rightarrow> Inr None
      | Some NaN \<Rightarrow> Inl StreamlitAPIException
      | Some (StrV t) \<Rightarrow> Inl StreamlitAPIException
      | Some (NumV k) \<Rightarrow> Inr (Some k))"

definition selectbox :: "'a list \<Rightarrow> int option \<Rightarrow> 'a option \<Rightarrow> error + 'a option" where
  "selectbox opts index choice =
     (case index of
        None \<Rightarrow> Inr (case choice of None \<Rightarrow> None
                      | Some v \<Rightarrow> if v \<in> set opts then Some v else None)
      | Some i \<Rightarrow>
          if opts \<noteq> [] \<and> \<not> (0 \<le> i \<and> i < int (length opts)) then Inl StreamlitAPIException
          else Inr (case choice of
                      None \<Rightarrow> if 0 \<le> i \<and> i < int (length opts) then Some (opts ! nat i)
                              else None
                    | Some v \<Rightarrow> if v \<in> set opts then Some v
                               else if 0 \<le> i \<and> i < int (length opts) then Some (opts ! nat i)
                               else None))"

text \<open>The identifier-column selector (lines 68-73): options are the columns.\<close>

definition name_selectbox :: "dataframe \<Rightarrow> string option \<Rightarrow> error + string option" where
  "name_selectbox df choice =
     (case default_name_index df of
        Inl e \<Rightarrow> Inl e
      | Inr i \<Rightarrow> selectbox (columns df) (Some (int i)) choice)"

section \<open>Session state and page\<close>

datatype view_mode = Overview_Sorting | Individual_Detail_View | Question_Analysis_View

text \<open>
  \<^verbatim>\<open>st.session_state\<close> as the script finds it when a pass starts. The key
  \<^verbatim>\<open>selected_index\<close> is always there (lines 13-14 set it to 0 on the first pass); it
  holds the position of a clicked row or what the row selector returned, a row label or
  \<^verbatim>\<open>None\<close>;
  \<^verbatim>\<open>view_mode_selector\<close> holds the mode picked in the radio control, if any;
  \<^verbatim>\<open>response_grid\<close> holds the rows selected in the overview grid, when the grid has
  reported a selection state (\<open>None\<close>: the key is absent).
\<close>

record session_state =
  selected_index :: "cell option"
  view_mode_selector :: "view_mode option"
  response_grid :: "nat list option"

definition initial_state :: session_state where
  "initial_state =
     \<lparr>selected_index = Some (NumV 0), view_mode_selector = None, response_grid = None\<rparr>"

text \<open>
  What a pass puts on the page, in order (static titles and style sheets left out). A
  selector records the options or labels it was built with, the index it was given and
  the value it shows; a response box records its heading and its answer.
\<close>

datatype element =
    Info_Message
  | Error_Message error
  | Name_Selector "string list" "string option"
  | View_Radio view_mode
  | Response_Grid dataframe
  | Row_Selector "(cell \<times> cell) list" "cell option" "cell option"
  | Respondent_Header cell
  | Question_Selector "string list" "string option"
  | Question_Header "string option"
  | Response_Box cell cell

datatype outcome = Completed | Stopped | Raised error

record pass =
  session :: session_state
  page :: "element list"
  outcome :: outcome

definition emit :: "element list \<Rightarrow> pass \<Rightarrow> pass" where
  "emit es r = r\<lparr>page := es @ page r\<rparr>"

definition finish :: "error option \<Rightarrow> outcome" where
  "finish err = (case err of None \<Rightarrow> Completed | Some e \<Rightarrow> Raised e)"

section \<open>Selection from the overview grid and the view-mode radio (lines 75-91)\<close>

definition handle_selection :: "session_state \<Rightarrow> session_state" where
  "handle_selection s =
     (case response_grid s of
        None \<Rightarrow> s
      | Some selection_rows \<Rightarrow>
          (case selection_rows of
             [] \<Rightarrow> s
           | r # _ \<Rightarrow> s\<lparr>selected_index := Some (NumV (int r)),
                          view_mode_selector := Some Individual_Detail_View\<rparr>))"

text \<open>
  \<^verbatim>\<open>st.sidebar.radio(..., key="view_mode_selector")\<close>: a keyed widget shows the value
  stored under its key, and its first option when the key is not set.
\<close>

definition radio :: "session_state \<Rightarrow> view_mode" where
  "radio s = (case view_mode_selector s of None \<Rightarrow> Overview_Sorting | Some m \<Rightarrow> m)"

section \<open>Overview (lines 94-111)\<close>

definition overview :: "dataframe \<Rightarrow> session_state \<Rightarrow> pass" where
  "overview df s = \<lparr>session = s, page = [Response_Grid df], outcome = Completed\<rparr>"

section \<open>Individual detail view (lines 114-192)\<close>

text \<open>
  \<^verbatim>\<open>get_label\<close> (lines 121-123) gives the text of an option of the row selector. The
  options are the row labels, and \<^verbatim>\<open>get_label\<close> uses each as a position.
\<close>

definition get_label :: "dataframe \<Rightarrow> string option \<Rightarrow> cell \<Rightarrow> error + cell \<times> cell" where
  "get_label df name_col index =
     (case iloc df (Some index) of
        Inl e \<Rightarrow> Inl e
      | Inr r \<Rightarrow> (case series_get (columns df) r name_col of
                   Inl e \<Rightarrow> Inl e
                 | Inr val \<Rightarrow> Inr (val, index)))"

fun format_options :: "(cell \<Rightarrow> error + cell \<times> cell) \<Rightarrow> cell list \<Rightarrow> error + (cell \<times> cell) list" where
  "format_options f [] = Inr []"
| "format_options f (i # is) =
     (case f i of
        Inl e \<Rightarrow> Inl e
      | Inr l \<Rightarrow> (case format_options f is of Inl e \<Rightarrow> Inl e | Inr ls \<Rightarrow> Inr (l # ls)))"

text \<open>The loop of lines 176-192 over \<^verbatim>\<open>df.columns\<close>, for the row \<^verbatim>\<open>row_data\<close>.\<close>

fun detail_loop :: "string list \<Rightarrow> cell list \<Rightarrow> string list \<Rightarrow> element list \<times> error option" where
  "detail_loop cols row_data [] = ([], None)"
| "detail_loop cols row_data (col_name # rest) =
     (if col_name = ''Row_ID'' then detail_loop cols row_data rest
      else (case series_get cols row_data (Some col_name) of
              Inl e \<Rightarrow> ([], Some e)
            | Inr val \<Rightarrow>
                if isna val then detail_loop cols row_data rest
                else (case detail_loop cols row_data rest of
                        (boxes, err) \<Rightarrow> (Response_Box (StrV col_name) val # boxes, err))))"

text \<open>
  The row selector (lines 125-130) has the row labels \<^verbatim>\<open>df.index\<close> as options and the
  stored index as index.
\<close>

definition row_selectbox :: "dataframe \<Rightarrow> cell option \<Rightarrow> cell option \<Rightarrow> error + cell option" where
  "row_selectbox df stored choice =
     (case index_arg stored of
        Inl e \<Rightarrow> Inl e
      | Inr i \<Rightarrow> selectbox (row_labels df) i choice)"

text \<open>
  The widget formats every option with \<^verbatim>\<open>get_label\<close> before it checks the index. Line
  132 stores what the selector returns, line 133 uses it as a position.
\<close>

definition detail_view :: "dataframe \<Rightarrow> string option \<Rightarrow> cell option \<Rightarrow> session_state \<Rightarrow> pass" where
  "detail_view df name_col choice s =
     (case format_options (get_label df name_col) (row_labels df) of
        Inl e \<Rightarrow> \<lparr>session = s, page = [], outcome = Raised e\<rparr>
      | Inr labels \<Rightarrow>
          (case row_selectbox df (selected_index s) choice of
             Inl e \<Rightarrow> \<lparr>session = s, page = [], outcome = Raised e\<rparr>
           | Inr selected \<Rightarrow>
               emit [Row_Selector labels (selected_index s) selected]
                 (let s' = s\<lparr>selected_index := selected\<rparr> in
                  case iloc df selected of
                    Inl e \<Rightarrow> \<lparr>session = s', page = [], outcome = Raised e\<rparr>
                  | Inr row_data \<Rightarrow>
                      (case series_get (columns df) row_data name_col of
                         Inl e \<Rightarrow> \<lparr>session = s', page = [], outcome = Raised e\<rparr>
                       | Inr val \<Rightarrow>
                           (case detail_loop (columns df) row_data (columns df) of
                              (boxes, err) \<Rightarrow>
                                \<lparr>session = s', page = Respondent_Header val # boxes,
                                 outcome = finish err\<rparr>)))))"

section \<open>Question analysis view (lines 195-259)\<close>

definition available_cols :: "dataframe \<Rightarrow> string list" where
  "available_cols df = filter (\<lambda>c. c \<noteq> ''Row_ID'') (columns df)"

text \<open>The loop of lines 247-259 over the rows, in row order.\<close>

fun question_loop ::
  "string list \<Rightarrow> string option \<Rightarrow> string option \<Rightarrow> cell list list \<Rightarrow> element list \<times> error option" where
  "question_loop cols name_col selected_question [] = ([], None)"
| "question_loop cols name_col selected_question (row # rest) =
     (case series_get cols row name_col of
        Inl e \<Rightarrow> ([], Some e)
      | Inr name_val \<Rightarrow>
          (case series_get cols row selected_question of
             Inl e \<Rightarrow> ([], Some e)
           | Inr answer_val \<Rightarrow>
               if isna answer_val then question_loop cols name_col selected_question rest
               else (case question_loop cols name_col selected_question rest of
                       (boxes, err) \<Rightarrow> (Response_Box name_val answer_val # boxes, err))))"

definition question_view :: "dataframe \<Rightarrow> string option \<Rightarrow> string option \<Rightarrow> session_state \<Rightarrow> pass" where
  "question_view df name_col choice s =
     (case selectbox (available_cols df) (Some 0) choice of
        Inl e \<Rightarrow> \<lparr>session = s, page = [], outcome = Raised e\<rparr>
      | Inr selected_question \<Rightarrow>
          (case question_loop (columns df) name_col selected_question (rows df) of
             (boxes, err) \<Rightarrow>
               \<lparr>session = s,
                page = Question_Selector (available_cols df) selected_question
                         # Question_Header selected_question # boxes,
                outcome = finish err\<rparr>))"

section \<open>One pass of the script\<close>

text \<open>
  The inputs of a pass: what the upload control and the example button give, already
  read by \<^verbatim>\<open>pd.read_csv\<close> (whose failure lines 52-54 catch), and what the user has
  picked in the three selectors.
\<close>

datatype source = No_Upload | Csv "error + dataframe"

record widget_input =
  name_choice :: "string option"
  row_choice :: "cell option"
  question_choice :: "string option"

definition main :: "source \<Rightarrow> widget_input \<Rightarrow> session_state \<Rightarrow> pass" where
  "main uploaded_file w s =
     (case uploaded_file of
        No_Upload \<Rightarrow> \<lparr>session = s, page = [Info_Message], outcome = Stopped\<rparr>
      | Csv (Inl e) \<Rightarrow> \<lparr>session = s, page = [Error_Message e], outcome = Stopped\<rparr>
      | Csv (Inr read) \<Rightarrow>
          (case load_table read of
             Inl e \<Rightarrow> \<lparr>session = s, page = [], outcome = Raised e\<rparr>
           | Inr df \<Rightarrow>
               (case name_selectbox df (name_choice w) of
                  Inl e \<Rightarrow> \<lparr>session = s, page = [], outcome = Raised e\<rparr>
                | Inr name_col \<Rightarrow>
                    (let s1 = handle_selection s; view_mode = radio s1 in
                     emit [Name_Selector (columns df) name_col, View_Radio view_mode]
                       (case view_mode of
                          Overview_Sorting \<Rightarrow> overview df s1
                        | Individual_Detail_View \<Rightarrow> detail_view df name_col (row_choice w) s1
                        | Question_Analysis_View \<Rightarrow>
                            question_view df name_col (question_choice w) s1)))))"

section \<open>The renderers as the specification words them\<close>

text \<open>
  The blocks of the detail view for row \<open>i\<close>: the columns with their cells, in column
  order, without the column \<^verbatim>\<open>Row_ID\<close> and without the missing cells.
\<close>

definition spec_detail_blocks :: "dataframe \<Rightarrow> nat \<Rightarrow> element list" where
  "spec_detail_blocks df i =
     map (\<lambda>(c, v). Response_Box (StrV c) v)
       (filter (\<lambda>(c, v). c \<noteq> ''Row_ID'' \<and> v \<noteq> NaN) (zip (columns df) (rows df ! i)))"

text \<open>
  The blocks of the question view for the column at position \<open>kq\<close>, labelled by the
  column at position \<open>kn\<close>: one block for each row whose answer is not missing, in row
  order.
\<close>

definition spec_question_blocks :: "dataframe \<Rightarrow> nat \<Rightarrow> nat \<Rightarrow> element list" where
  "spec_question_blocks df kn kq =
     map (\<lambda>r. Response_Box (r ! kn) (r ! kq)) (filter (\<lambda>r. r ! kq \<noteq> NaN) (rows df))"

text \<open>A string contains a word, letter case ignored.\<close>

definition contains_ci :: "string \<Rightarrow> string \<Rightarrow> bool" where
  "contains_ci s word = (\<exists>ps w ss. s = ps @ w @ ss \<and> lower w = lower word)"

section \<open>Example tables\<close>

definition scores_table :: dataframe where
  "scores_table =
     \<lparr>columns = [''Row_ID'', ''Name'', ''Score''],
      row_labels = [NumV 0, NumV 1, NumV 2, NumV 3, NumV 4],
      rows = [[NumV 0, StrV ''Alice'', NumV 8],
              [NumV 1, StrV ''Bob'', NumV 5],
              [NumV 2, StrV ''Charlie'', NaN],
              [NumV 3, StrV ''Diana'', NumV 3],
              [NumV 4, StrV ''Evan'', NumV 9]]\<rparr>"

definition scores_csv :: dataframe where
  "scores_csv =
     \<lparr>columns = [''Name'', ''Score''],
      row_labels = [NumV 0, NumV 1, NumV 2, NumV 3, NumV 4],
      rows = [[StrV ''Alice'', NumV 8],
              [StrV ''Bob'', NumV 5],
              [StrV ''Charlie'', NaN],
              [StrV ''Diana'', NumV 3],
              [StrV ''Evan'', NumV 9]]\<rparr>"

definition short_csv :: dataframe where
  "short_csv =
     \<lparr>columns = [''ID'', ''Name''],
      row_labels = [NumV 0, NumV 1],
      rows = [[NumV 17, StrV ''Frank''], [NumV 18, StrV ''Grace'']]\<rparr>"

definition short_table :: dataframe where
  "short_table =
     \<lparr>columns = [''Row_ID'', ''ID'', ''Name''],
      row_labels = [NumV 0, NumV 1],
      rows = [[NumV 0, NumV 17, StrV ''Frank''], [NumV 1, NumV 18, StrV ''Grace'']]\<rparr>"

definition keyed_csv :: dataframe where
  "keyed_csv =
     \<lparr>columns = [''Row_ID'', ''Answer''],
      row_labels = [NumV 0, NumV 1],
      rows = [[StrV ''a-7'', StrV ''yes''], [StrV ''b-9'', NaN]]\<rparr>"

text \<open>
  The frame of a file with the header \<^verbatim>\<open>Name,Score\<close> and the records \<^verbatim>\<open>Ann,8,\<close>
  and \<^verbatim>\<open>Bob,5,\<close>, each ending in a delimiter: the records have three fields, and the
  first field of each is the label of the row.
\<close>

definition labelled_csv :: dataframe where
  "labelled_csv =
     \<lparr>columns = [''Name'', ''Score''],
      row_labels = [StrV ''Ann'', StrV ''Bob''],
      rows = [[NumV 8, NaN], [NumV 5, NaN]]\<rparr>"

text \<open>The frame of a file with the header \<^verbatim>\<open>index,Name\<close> and the record \<^verbatim>\<open>7,Ann\<close>.\<close>

definition index_csv :: dataframe where
  "index_csv =
     \<lparr>columns = [''index'', ''Name''], row_labels = [NumV 0], rows = [[NumV 7, StrV ''Ann'']]\<rparr>"

definition no_input :: widget_input where
  "no_input = \<lparr>name_choice = None, row_choice = None, question_choice = None\<rparr>"

section \<open>Lemmas on the lookups and the loops\<close>

lemma series_get_nth:
  "distinct cols \<Longrightarrow> length row = length cols \<Longrightarrow> k < length cols \<Longrightarrow>
   series_get cols row (Some (cols ! k)) = Inr (row ! k)"
  by (simp add: series_get_def map_of_zip_nth)

lemma detail_loop_map_of:
  "set cs \<subseteq> set cols \<Longrightarrow> length row = length cols \<Longrightarrow>
   detail_loop cols row cs =
     (map (\<lambda>c. Response_Box (StrV c) (the (map_of (zip cols row) c)))
        (filter (\<lambda>c. c \<noteq> ''Row_ID'' \<and> the (map_of (zip cols row) c) \<noteq> NaN) cs), None)"
proof (induction cs)
  case Nil
  then show ?case by simp
next
  case (Cons c cs)
  then have "c \<in> set cols" by simp
  with Cons.prems(2) obtain v where v: "map_of (zip cols row) c = Some v"
    by (metis map_of_zip_is_Some option.exhaust_sel)
  with Cons show ?case by (simp add: series_get_def isna_def)
qed

lemma zip_lookup:
  "distinct cols \<Longrightarrow> length row = length cols \<Longrightarrow>
   map (\<lambda>c. (c, the (map_of (zip cols row) c))) cols = zip cols row"
  by (rule nth_equalityI) (simp_all add: map_of_zip_nth)

lemma detail_loop_spec:
  assumes "distinct cols" "length row = length cols"
  shows "detail_loop cols row cols =
     (map (\<lambda>(c, v). Response_Box (StrV c) v)
        (filter (\<lambda>(c, v). c \<noteq> ''Row_ID'' \<and> v \<noteq> NaN) (zip cols row)), None)"
proof -
  let ?g = "\<lambda>c. the (map_of (zip cols row) c)"
  have "map (\<lambda>(c, v). Response_Box (StrV c) v)
        (filter (\<lambda>(c, v). c \<noteq> ''Row_ID'' \<and> v \<noteq> NaN) (map (\<lambda>c. (c, ?g c)) cols))
      = map (\<lambda>c. Response_Box (StrV c) (?g c)) (filter (\<lambda>c. c \<noteq> ''Row_ID'' \<and> ?g c \<noteq> NaN) cols)"
    by (simp add: filter_map o_def)
  then show ?thesis
    using assms by (simp add: detail_loop_map_of zip_lookup)
qed

lemma question_loop_spec:
  assumes "distinct cols" "list_all (\<lambda>r. length r = length cols) rs"
    "kn < length cols" "kq < length cols"
  shows "question_loop cols (Some (cols ! kn)) (Some (cols ! kq)) rs =
     (map (\<lambda>r. Response_Box (r ! kn) (r ! kq)) (filter (\<lambda>r. r ! kq \<noteq> NaN) rs), None)"
  using assms by (induction rs) (simp_all add: series_get_nth isna_def)

lemma iloc_position:
  "j < length (rows df) \<Longrightarrow> iloc df (Some (NumV (int j))) = Inr (rows df ! j)"
  by (simp add: iloc_def)

lemma format_options_labels:
  assumes "distinct (columns df)" "list_all (\<lambda>r. length r = length (columns df)) (rows df)"
    "kn < length (columns df)" "set js \<subseteq> {..<length (rows df)}"
  shows "format_options (get_label df (Some (columns df ! kn))) (map (\<lambda>j. NumV (int j)) js) =
     Inr (map (\<lambda>j. (rows df ! j ! kn, NumV (int j))) js)"
  using assms
proof (induction js)
  case Nil
  then show ?case by simp
next
  case (Cons j js)
  then have j: "j < length (rows df)" by simp
  with Cons.prems(2) have "length (rows df ! j) = length (columns df)"
    by (simp add: list_all_length)
  with Cons j show ?case
    by (simp add: get_label_def iloc_position series_get_nth)
qed

lemma selectbox_member:
  "selectbox opts idx choice = Inr (Some v) \<Longrightarrow> v \<in> set opts"
  by (auto simp: selectbox_def split: option.splits if_splits)

lemma row_selectbox_member:
  assumes "row_selectbox df stored choice = Inr (Some l)"
  shows "l \<in> set (row_labels df)"
proof (cases "index_arg stored")
  case (Inl e)
  with assms show ?thesis by (simp add: row_selectbox_def)
next
  case (Inr i)
  with assms have "selectbox (row_labels df) i choice = Inr (Some l)"
    by (simp add: row_selectbox_def)
  then show ?thesis by (rule selectbox_member)
qed

lemma row_selectbox_position:
  assumes "default_index df" and "row_selectbox df stored choice = Inr (Some (NumV (int i)))"
  shows "i < length (rows df)"
proof -
  from row_selectbox_member [OF assms(2)] assms(1)
  have "NumV (int i) \<in> (\<lambda>j. NumV (int j)) ` {0..<length (rows df)}"
    by (simp add: default_index_def)
  then show ?thesis by auto
qed

lemma wf_row_length:
  "wf_table df \<Longrightarrow> i < length (rows df) \<Longrightarrow> length (rows df ! i) = length (columns df)"
  by (simp add: wf_table_def list_all_length)

lemma detail_view_row:
  assumes wf: "wf_table df" and di: "default_index df" and kn: "kn < length (columns df)"
    and sel: "row_selectbox df (selected_index s) choice = Inr (Some (NumV (int i)))"
  shows "detail_view df (Some (columns df ! kn)) choice s =
     \<lparr>session = s\<lparr>selected_index := Some (NumV (int i))\<rparr>,
      page = Row_Selector (map (\<lambda>j. (rows df ! j ! kn, NumV (int j))) [0..<length (rows df)])
               (selected_index s) (Some (NumV (int i)))
             # Respondent_Header (rows df ! i ! kn) # spec_detail_blocks df i,
      outcome = Completed\<rparr>"
proof -
  have i: "i < length (rows df)" using di sel by (rule row_selectbox_position)
  have d: "distinct (columns df)"
    and a: "list_all (\<lambda>r. length r = length (columns df)) (rows df)"
    using wf by (simp_all add: wf_table_def)
  have len: "length (rows df ! i) = length (columns df)" using wf i by (rule wf_row_length)
  have "format_options (get_label df (Some (columns df ! kn)))
          (map (\<lambda>j. NumV (int j)) [0..<length (rows df)]) =
      Inr (map (\<lambda>j. (rows df ! j ! kn, NumV (int j))) [0..<length (rows df)])"
    using d a kn by (rule format_options_labels) auto
  then have labels: "format_options (get_label df (Some (columns df ! kn))) (row_labels df) =
      Inr (map (\<lambda>j. (rows df ! j ! kn, NumV (int j))) [0..<length (rows df)])"
    using di by (simp add: default_index_def)
  have loop: "detail_loop (columns df) (rows df ! i) (columns df) = (spec_detail_blocks df i, None)"
    using d len by (simp add: detail_loop_spec spec_detail_blocks_def)
  show ?thesis
    using i kn d len
    by (simp add: detail_view_def sel labels loop iloc_position series_get_nth emit_def finish_def)
qed

lemma question_view_rows:
  assumes wf: "wf_table df" and kn: "kn < length (columns df)" and kq: "kq < length (columns df)"
    and sel: "selectbox (available_cols df) (Some 0) choice = Inr (Some (columns df ! kq))"
  shows "question_view df (Some (columns df ! kn)) choice s =
     \<lparr>session = s,
      page = Question_Selector (available_cols df) (Some (columns df ! kq))
             # Question_Header (Some (columns df ! kq)) # spec_question_blocks df kn kq,
      outcome = Completed\<rparr>"
proof -
  have "distinct (columns df)"
    and "list_all (\<lambda>r. length r = length (columns df)) (rows df)"
    using wf by (simp_all add: wf_table_def)
  then have "question_loop (columns df) (Some (columns df ! kn)) (Some (columns df ! kq)) (rows df)
      = (spec_question_blocks df kn kq, None)"
    using kn kq by (simp add: question_loop_spec spec_question_blocks_def)
  then show ?thesis
    by (simp add: question_view_def sel finish_def)
qed

section \<open>Lemmas on the loader and on the search for a name column\<close>

lemma load_table_keeps_Row_ID:
  "''Row_ID'' \<in> set (columns read) \<Longrightarrow> load_table read = Inr read"
  by (simp add: load_table_def)

lemma reset_index_Inr:
  assumes "reset_index read = Inr df"
  shows "df = \<lparr>columns = (if ''index'' \<in> set (columns read) then ''level_0'' else ''index'')
                         # columns read,
               row_labels = map (\<lambda>i. NumV (int i)) [0..<length (rows read)],
               rows = map (\<lambda>(l, r). l # r) (zip (row_labels read) (rows read))\<rparr>"
proof (cases "''index'' \<in> set (columns read)")
  case True
  show ?thesis
  proof (cases "''level_0'' \<in> set (columns read)")
    case l: True
    have "reset_index read = Inl ValueError"
      unfolding reset_index_def Let_def using True l by simp
    with assms show ?thesis by simp
  next
    case l: False
    have "reset_index read = Inr \<lparr>columns = ''level_0'' # columns read,
               row_labels = map (\<lambda>i. NumV (int i)) [0..<length (rows read)],
               rows = map (\<lambda>(l, r). l # r) (zip (row_labels read) (rows read))\<rparr>"
      unfolding reset_index_def Let_def using True l by simp
    with assms True show ?thesis by simp
  qed
next
  case False
  with assms show ?thesis by (simp add: reset_index_def)
qed

lemma load_table_adds_column:
  assumes "''Row_ID'' \<notin> set (columns read)" and "load_table read = Inr df"
  shows "columns df =
           (if ''index'' \<in> set (columns read) then ''level_0'' else ''Row_ID'')
           # map (\<lambda>c. if c = ''index'' then ''Row_ID'' else c) (columns read)"
    and "rows df = map (\<lambda>(l, r). l # r) (zip (row_labels read) (rows read))"
    and "row_labels df = map (\<lambda>i. NumV (int i)) [0..<length (rows read)]"
proof -
  from assms have "(case reset_index read of Inl e \<Rightarrow> Inl e | Inr df' \<Rightarrow> Inr (rename_index df'))
      = Inr df"
    by (simp add: load_table_def)
  then obtain df' where r: "reset_index read = Inr df'" and df: "df = rename_index df'"
    by (cases "reset_index read") auto
  note df' = reset_index_Inr [OF r]
  show "columns df =
           (if ''index'' \<in> set (columns read) then ''level_0'' else ''Row_ID'')
           # map (\<lambda>c. if c = ''index'' then ''Row_ID'' else c) (columns read)"
    by (simp add: df rename_index_def df')
  show "rows df = map (\<lambda>(l, r). l # r) (zip (row_labels read) (rows read))"
    by (simp add: df rename_index_def df')
  show "row_labels df = map (\<lambda>i. NumV (int i)) [0..<length (rows read)]"
    by (simp add: df rename_index_def df')
qed

lemma load_table_columns_nonempty:
  assumes "load_table read = Inr df"
  shows "columns df \<noteq> []"
proof (cases "''Row_ID'' \<in> set (columns read)")
  case True
  with assms have "df = read" by (simp add: load_table_keeps_Row_ID)
  with True show ?thesis by auto
next
  case False
  from load_table_adds_column(1) [OF False assms] show ?thesis by simp
qed

lemma startswith_iff: "startswith s p \<longleftrightarrow> (\<exists>ss. s = p @ ss)"
  by (induction s p rule: startswith.induct) auto

lemma contains_iff: "contains s sub \<longleftrightarrow> (\<exists>ps ss. s = ps @ sub @ ss)"
proof (induction s)
  case Nil
  then show ?case by auto
next
  case (Cons c cs)
  show ?case
  proof
    assume "contains (c # cs) sub"
    then consider "startswith (c # cs) sub" | "contains cs sub" by auto
    then show "\<exists>ps ss. c # cs = ps @ sub @ ss"
    proof cases
      case 1
      then obtain ss where "c # cs = sub @ ss" by (auto simp: startswith_iff)
      then have "c # cs = [] @ sub @ ss" by simp
      then show ?thesis by blast
    next
      case 2
      then obtain ps ss where "cs = ps @ sub @ ss" using Cons.IH by blast
      then have "c # cs = (c # ps) @ sub @ ss" by simp
      then show ?thesis by blast
    qed
  next
    assume "\<exists>ps ss. c # cs = ps @ sub @ ss"
    then obtain ps ss where e: "c # cs = ps @ sub @ ss" by blast
    show "contains (c # cs) sub"
    proof (cases ps)
      case Nil
      with e have "startswith (c # cs) sub" by (auto simp: startswith_iff)
      then show ?thesis by simp
    next
      case (Cons p ps')
      with e have "cs = ps' @ sub @ ss" by simp
      then have "contains cs sub" using Cons.IH by blast
      then show ?thesis by simp
    qed
  qed
qed

lemma map_split:
  "map f xs = ys @ zs \<Longrightarrow> \<exists>us vs. xs = us @ vs \<and> map f us = ys \<and> map f vs = zs"
  by (auto simp: map_eq_append_conv)

lemma contains_ci_lower: "contains_ci s word \<longleftrightarrow> contains (lower s) (lower word)"
proof
  assume "contains_ci s word"
  then obtain ps w ss where "s = ps @ w @ ss" "lower w = lower word"
    by (auto simp: contains_ci_def)
  then have "lower s = lower ps @ lower word @ lower ss" by (simp add: lower_def)
  then show "contains (lower s) (lower word)" unfolding contains_iff by blast
next
  assume "contains (lower s) (lower word)"
  then obtain ps ss where "map lower_char s = ps @ lower word @ ss"
    by (auto simp: contains_iff lower_def)
  then obtain ps' vs where s: "s = ps' @ vs" and "map lower_char vs = lower word @ ss"
    using map_split [of lower_char s ps "lower word @ ss"] by blast
  then obtain w ss' where "vs = w @ ss'" "map lower_char w = lower word"
    using map_split [of lower_char vs "lower word" ss] by blast
  with s have "s = ps' @ w @ ss'" "map lower_char w = lower word" by simp_all
  then show "contains_ci s word" by (auto simp: contains_ci_def lower_def)
qed

lemma contains_ci_name: "contains_ci s ''name'' \<longleftrightarrow> contains (lower s) ''name''"
proof -
  have "lower ''name'' = ''name''" by (simp add: lower_def isupper_def)
  then show ?thesis by (simp add: contains_ci_lower)
qed

lemma first_match_get_loc:
  "filter P cols = p # ps \<Longrightarrow>
   \<exists>k. get_loc cols p = Some k \<and> k < length cols \<and> cols ! k = p \<and> P p \<and> (\<forall>j<k. \<not> P (cols ! j))"
proof (induction cols)
  case Nil
  then show ?case by simp
next
  case (Cons c cs)
  show ?case
  proof (cases "P c")
    case True
    with Cons.prems have "c = p" by simp
    with True show ?thesis by simp
  next
    case False
    with Cons.prems have "filter P cs = p # ps" by simp
    from Cons.IH [OF this] obtain k where k: "get_loc cs p = Some k" "k < length cs"
      "cs ! k = p" "P p" "\<forall>j<k. \<not> P (cs ! j)" by blast
    from False k(4) have "c \<noteq> p" by auto
    moreover have "\<forall>j<Suc k. \<not> P ((c # cs) ! j)"
      using False k(5) by (auto simp: less_Suc_eq_0_disj)
    ultimately show ?thesis using k by auto
  qed
qed

lemma detail_loop_skips_Row_ID:
  "Response_Box (StrV ''Row_ID'') v \<notin> set (fst (detail_loop cols row cs))"
  by (induction cs) (auto split: sum.splits prod.splits)

lemma question_loop_boxes:
  "e \<in> set (fst (question_loop cols name_col q rs)) \<Longrightarrow> \<exists>a b. e = Response_Box a b"
  by (induction rs) (auto split: sum.splits prod.splits if_splits)

lemma detail_view_skips_Row_ID:
  "Response_Box (StrV ''Row_ID'') v \<notin> set (page (detail_view df name_col choice s))"
proof -
  have "Response_Box (StrV ''Row_ID'') v \<notin> set boxes"
    if "detail_loop (columns df) row (columns df) = (boxes, err)" for row boxes err
    using detail_loop_skips_Row_ID [of v "columns df" row "columns df"] that by simp
  then show ?thesis
    by (auto simp: detail_view_def emit_def Let_def split: sum.splits prod.splits)
qed

lemma question_view_selector:
  assumes "Question_Selector opts sel \<in> set (page (question_view df name_col choice s))"
  shows "opts = available_cols df \<and> selectbox (available_cols df) (Some 0) choice = Inr sel"
proof (cases "selectbox (available_cols df) (Some 0) choice")
  case (Inl e)
  with assms show ?thesis by (simp add: question_view_def)
next
  case (Inr selected_question)
  obtain boxes err where l: "question_loop (columns df) name_col selected_question (rows df)
      = (boxes, err)" by (cases "question_loop (columns df) name_col selected_question (rows df)")
  have "Question_Selector opts sel \<notin> set boxes"
    using question_loop_boxes [of "Question_Selector opts sel" "columns df" name_col
        selected_question "rows df"] l by auto
  with assms Inr l show ?thesis by (auto simp: question_view_def)
qed

section \<open>Lemmas on a pass of the script\<close>

lemma handle_selection_click:
  "response_grid s = Some (i # rest) \<Longrightarrow>
   handle_selection s = s\<lparr>selected_index := Some (NumV (int i)),
                          view_mode_selector := Some Individual_Detail_View\<rparr>"
  by (simp add: handle_selection_def)


lemma default_name_index_bound:
  assumes "columns df \<noteq> []"
  shows "\<exists>k<length (columns df). default_name_index df = Inr k"
proof (cases "possible_names df")
  case Nil
  with assms show ?thesis by (simp add: default_name_index_def)
next
  case (Cons p ps)
  then have "filter (\<lambda>col. contains (lower col) ''name'') (columns df) = p # ps"
    by (simp add: possible_names_def)
  from first_match_get_loc [OF this] obtain k where "get_loc (columns df) p = Some k"
    "k < length (columns df)" by blast
  with Cons show ?thesis by (simp add: default_name_index_def)
qed

lemma selectbox_in_range:
  "i < length opts \<Longrightarrow> \<exists>v\<in>set opts. selectbox opts (Some (int i)) choice = Inr (Some v)"
  by (cases choice) (auto simp: selectbox_def)

lemma name_selectbox_column:
  assumes "columns df \<noteq> []"
  shows "\<exists>kn<length (columns df). name_selectbox df choice = Inr (Some (columns df ! kn))"
proof -
  from default_name_index_bound [OF assms] obtain k where k: "k < length (columns df)"
    "default_name_index df = Inr k" by blast
  from selectbox_in_range [OF k(1), of choice] obtain v where v: "v \<in> set (columns df)"
    "selectbox (columns df) (Some (int k)) choice = Inr (Some v)" by blast
  from v(1) obtain kn where "kn < length (columns df)" "columns df ! kn = v"
    by (auto simp: in_set_conv_nth)
  with k(2) v(2) show ?thesis by (auto simp: name_selectbox_def)
qed




lemma main_loaded:
  assumes "load_table read = Inr df" and "name_selectbox df (name_choice w) = Inr name_col"
  shows "main (Csv (Inr read)) w s =
     emit [Name_Selector (columns df) name_col, View_Radio (radio (handle_selection s))]
       (case radio (handle_selection s) of
          Overview_Sorting \<Rightarrow> overview df (handle_selection s)
        | Individual_Detail_View \<Rightarrow> detail_view df name_col (row_choice w) (handle_selection s)
        | Question_Analysis_View \<Rightarrow>
            question_view df name_col (question_choice w) (handle_selection s))"
  using assms by (simp add: main_def Let_def)

lemma row_selectbox_default:
  assumes "default_index df" and "0 \<le> k" and "k < int (length (rows df))"
  shows "row_selectbox df (Some (NumV k)) None = Inr (Some (NumV k))"
proof -
  from assms(2,3) have "nat k < length (rows df)" by simp
  with assms show ?thesis
    by (simp add: row_selectbox_def index_arg_def selectbox_def default_index_def)
qed

lemma row_selectbox_rejects:
  assumes "length (row_labels df) = length (rows df)" and "rows df \<noteq> []"
    and "\<not> (0 \<le> k \<and> k < int (length (rows df)))"
  shows "row_selectbox df (Some (NumV k)) choice = Inl StreamlitAPIException"
proof -
  from assms(1,2) have "row_labels df \<noteq> []" by auto
  with assms(1,3) show ?thesis
    by (simp add: row_selectbox_def index_arg_def selectbox_def)
qed


lemma detail_loop_boxes:
  "e \<in> set (fst (detail_loop cols row cs)) \<Longrightarrow> \<exists>a b. e = Response_Box a b"
  by (induction cs) (auto split: sum.splits prod.splits if_splits)

lemma detail_view_page:
  assumes "e \<in> set (page (detail_view df name_col choice s))"
  shows "(\<exists>labels v. e = Row_Selector labels (selected_index s) v) \<or> (\<exists>c. e = Respondent_Header c)
         \<or> (\<exists>a b. e = Response_Box a b)"
proof -
  have "\<exists>a b. e = Response_Box a b"
    if "detail_loop (columns df) row (columns df) = (boxes, err)" "e \<in> set boxes" for row boxes err
    using detail_loop_boxes [of e "columns df" row "columns df"] that by simp
  with assms show ?thesis
    by (auto simp: detail_view_def emit_def Let_def split: sum.splits prod.splits)
qed

lemma question_view_page:
  assumes "e \<in> set (page (question_view df name_col choice s))"
  shows "(\<exists>opts v. e = Question_Selector opts v) \<or> (\<exists>c. e = Question_Header c)
         \<or> (\<exists>a b. e = Response_Box a b)"
proof -
  have "\<exists>a b. e = Response_Box a b"
    if "question_loop (columns df) name_col q (rows df) = (boxes, err)" "e \<in> set boxes" for q boxes err
    using question_loop_boxes [of e "columns df" name_col q "rows df"] that by simp
  with assms show ?thesis
    by (auto simp: question_view_def split: sum.splits prod.splits)
qed


lemma main_page:
  assumes "e \<in> set (page (main src w s))"
  shows "e = Info_Message \<or> (\<exists>x. e = Error_Message x) \<or> (\<exists>opts v. e = Name_Selector opts v)
       \<or> e = View_Radio (radio (handle_selection s)) \<or> (\<exists>df. e = Response_Grid df)
       \<or> (\<exists>labels v. e = Row_Selector labels (selected_index (handle_selection s)) v)
       \<or> (\<exists>c. e = Respondent_Header c) \<or> (\<exists>opts v. e = Question_Selector opts v)
       \<or> (\<exists>c. e = Question_Header c) \<or> (\<exists>a b. e = Response_Box a b)"
proof (cases src)
  case No_Upload
  with assms show ?thesis by (simp add: main_def)
next
  case (Csv res)
  show ?thesis
  proof (cases res)
    case (Inl x)
    with Csv assms show ?thesis by (simp add: main_def)
  next
    case (Inr read)
    show ?thesis
    proof (cases "load_table read")
      case l: (Inl x)
      with Csv Inr assms show ?thesis by (simp add: main_def)
    next
      case l: (Inr df)
      show ?thesis
      proof (cases "name_selectbox df (name_choice w)")
        case n: (Inl x)
        with Csv Inr l assms show ?thesis by (simp add: main_def)
      next
        case n: (Inr name_col)
        note m = main_loaded [OF l n, of s]
        show ?thesis
        proof (cases "radio (handle_selection s)")
          case Overview_Sorting
          with assms Csv Inr m show ?thesis by (auto simp: emit_def overview_def)
        next
          case Individual_Detail_View
          with assms Csv Inr m
          have "e = Name_Selector (columns df) name_col \<or> e = View_Radio (radio (handle_selection s))
              \<or> e \<in> set (page (detail_view df name_col (row_choice w) (handle_selection s)))"
            by (auto simp: emit_def)
          then show ?thesis using detail_view_page by blast
        next
          case Question_Analysis_View
          with assms Csv Inr m
          have "e = Name_Selector (columns df) name_col \<or> e = View_Radio (radio (handle_selection s))
              \<or> e \<in> set (page (question_view df name_col (question_choice w) (handle_selection s)))"
            by (auto simp: emit_def)
          then show ?thesis using question_view_page by blast
        qed
      qed
    qed
  qed
qed


section \<open>Detail renderer\<close>

text \<open>
  Claim C2, as stated, fails: the detail view does not leave out the column chosen as
  identifier. With \<^verbatim>\<open>Name\<close> as the identifier column, the page for the first row has
  the block of \<^verbatim>\<open>Name\<close> next to the block of \<^verbatim>\<open>Score\<close>; only the column labelled
  \<^verbatim>\<open>Row_ID\<close> has none.
\<close>

theorem detail_view_shows_chosen_column_counterexample:
  "columns scores_table ! 1 = ''Name''
   \<and> page (detail_view scores_table (Some ''Name'') None
        \<lparr>selected_index = Some (NumV 0), view_mode_selector = Some Individual_Detail_View,
         response_grid = None\<rparr>) =
       [Row_Selector [(StrV ''Alice'', NumV 0), (StrV ''Bob'', NumV 1), (StrV ''Charlie'', NumV 2),
                      (StrV ''Diana'', NumV 3), (StrV ''Evan'', NumV 4)]
          (Some (NumV 0)) (Some (NumV 0)),
        Respondent_Header (StrV ''Alice''),
        Response_Box (StrV ''Name'') (StrV ''Alice''),
        Response_Box (StrV ''Score'') (NumV 8)]"
  by (simp add: scores_table_def detail_view_def row_selectbox_def index_arg_def selectbox_def
      get_label_def iloc_def series_get_def emit_def finish_def isna_def)

text \<open>
  Claim C2, amended. On a table as the reader returns it whose row labels are the
  positions, when the row selector yields row \<open>i\<close>, the detail view puts on the page,
  after the selector and the header, exactly one block (column name, cell) for each
  column whose cell in row \<open>i\<close> is not missing, in column order, leaving out the column
  labelled \<^verbatim>\<open>Row_ID\<close> (line 178) and no other; nothing else is left out, reordered or
  cut, and the pass completes. The blocks are the same for every column \<open>kn\<close> chosen as
  identifier: that choice only sets the header and the labels in the selector, and the
  chosen column has its block like any other.
\<close>

theorem detail_view_emits_nonempty_cells:
  assumes "wf_table df" and "default_index df" and "kn < length (columns df)"
    and "row_selectbox df (selected_index s) choice = Inr (Some (NumV (int i)))"
  shows "(\<exists>labels.
           page (detail_view df (Some (columns df ! kn)) choice s) =
             Row_Selector labels (selected_index s) (Some (NumV (int i))) #
             Respondent_Header (rows df ! i ! kn) #
             map (\<lambda>(c, v). Response_Box (StrV c) v)
               (filter (\<lambda>(c, v). c \<noteq> ''Row_ID'' \<and> v \<noteq> NaN)
                  (zip (columns df) (rows df ! i))))
         \<and> outcome (detail_view df (Some (columns df ! kn)) choice s) = Completed"
  using assms by (simp add: detail_view_row spec_detail_blocks_def)

theorem detail_view_emits_nonempty_cells_witness:
  "wf_table scores_table \<and> default_index scores_table
   \<and> (1::nat) < length (columns scores_table)
   \<and> row_selectbox scores_table (selected_index initial_state) (Some (NumV 2))
       = Inr (Some (NumV (int 2)))
   \<and> (\<exists>labels.
        page (detail_view scores_table (Some ''Name'') (Some (NumV 2)) initial_state) =
          [Row_Selector labels (Some (NumV 0)) (Some (NumV 2)),
           Respondent_Header (StrV ''Charlie''),
           Response_Box (StrV ''Name'') (StrV ''Charlie'')])"
  using detail_view_emits_nonempty_cells [of scores_table 1 initial_state "Some (NumV 2)" 2]
  by (simp add: scores_table_def wf_table_def default_index_def row_selectbox_def index_arg_def
      selectbox_def initial_state_def)

section \<open>Question renderer\<close>

text \<open>
  Claim C3. On a table as the reader returns it, for the selected question column (at
  position \<open>kq\<close>) and every column \<open>kn\<close> chosen as the label of the rows, the question
  view puts on the page, after the selector and the header, exactly one block (label
  cell of the row, answer cell of the row) for each row whose answer is not missing, in
  row order, and nothing for a row whose answer is missing. The witness is the table of
  five rows of which one has no score: four blocks.
\<close>

theorem question_view_emits_nonempty_answers:
  assumes "wf_table df" and "kn < length (columns df)" and "kq < length (columns df)"
    and "selectbox (available_cols df) (Some 0) choice = Inr (Some (columns df ! kq))"
  shows "page (question_view df (Some (columns df ! kn)) choice s) =
           Question_Selector (available_cols df) (Some (columns df ! kq)) #
           Question_Header (Some (columns df ! kq)) #
           map (\<lambda>r. Response_Box (r ! kn) (r ! kq)) (filter (\<lambda>r. r ! kq \<noteq> NaN) (rows df))
         \<and> outcome (question_view df (Some (columns df ! kn)) choice s) = Completed"
  using assms by (simp add: question_view_rows spec_question_blocks_def)

theorem question_view_emits_nonempty_answers_witness:
  "wf_table scores_table \<and> (1::nat) < length (columns scores_table)
   \<and> (2::nat) < length (columns scores_table)
   \<and> selectbox (available_cols scores_table) (Some 0) (Some ''Score'')
       = Inr (Some (columns scores_table ! 2))
   \<and> length (rows scores_table) = 5
   \<and> page (question_view scores_table (Some ''Name'') (Some ''Score'') initial_state) =
         [Question_Selector [''Name'', ''Score''] (Some ''Score''),
          Question_Header (Some ''Score''),
          Response_Box (StrV ''Alice'') (NumV 8), Response_Box (StrV ''Bob'') (NumV 5),
          Response_Box (StrV ''Diana'') (NumV 3), Response_Box (StrV ''Evan'') (NumV 9)]"
  using question_view_emits_nonempty_answers
    [of scores_table 1 2 "Some ''Score''" initial_state]
  by (simp add: scores_table_def wf_table_def available_cols_def selectbox_def)

section \<open>Table loader\<close>

text \<open>
  Claim C7 is what the script says of itself (line 56: "Add a virtual index column for
  reference if one doesn't exist"; line 177: "the internal Row_ID we generated, as it's
  not part of the survey data"), and lines 57-59 miss it on two kinds of file.
  \<^verbatim>\<open>reset_index\<close> copies the row labels of the frame, which are \<open>0..N-1\<close> only when
  the reader made them so: for the file whose records end in a delimiter, the column
  \<^verbatim>\<open>Row_ID\<close> holds the first field of each record, \<^verbatim>\<open>Ann\<close> and \<^verbatim>\<open>Bob\<close>, and not
  0 and 1. For the file with a column \<^verbatim>\<open>index\<close>, the added column is labelled
  \<^verbatim>\<open>level_0\<close> and the label \<^verbatim>\<open>Row_ID\<close> goes to the file's own column, holding 7.
\<close>

theorem load_table_copies_row_labels:
  "load_table labelled_csv =
     Inr \<lparr>columns = [''Row_ID'', ''Name'', ''Score''],
          row_labels = [NumV 0, NumV 1],
          rows = [[StrV ''Ann'', NumV 8, NaN], [StrV ''Bob'', NumV 5, NaN]]\<rparr>
   \<and> load_table index_csv =
     Inr \<lparr>columns = [''level_0'', ''Row_ID'', ''Name''],
          row_labels = [NumV 0],
          rows = [[NumV 0, NumV 7, StrV ''Ann'']]\<rparr>"
  by (simp add: load_table_def reset_index_def rename_index_def labelled_csv_def index_csv_def)




section \<open>Default identifier column\<close>

text \<open>
  Claim C8. For every loaded table, the column the identifier selector shows when the
  user has picked none is the first column, in column order, whose name contains
  \<^verbatim>\<open>name\<close> with letter case ignored, and the first column of the table when no
  column name does. The witness is a file with the columns \<^verbatim>\<open>ID\<close> and \<^verbatim>\<open>Name\<close>:
  \<^verbatim>\<open>Name\<close> is chosen.
\<close>

theorem default_name_column:
  assumes loaded: "load_table read = Inr df"
  shows "\<exists>k<length (columns df).
           name_selectbox df None = Inr (Some (columns df ! k)) \<and>
           (if \<exists>c\<in>set (columns df). contains_ci c ''name''
            then contains_ci (columns df ! k) ''name'' \<and>
                 (\<forall>j<k. \<not> contains_ci (columns df ! j) ''name'')
            else k = 0)"
proof (cases "possible_names df")
  case Nil
  from loaded have assms: "columns df \<noteq> []" by (rule load_table_columns_nonempty)
  from Nil have "\<not> (\<exists>c\<in>set (columns df). contains_ci c ''name'')"
    by (auto simp: possible_names_def contains_ci_name filter_empty_conv)
  moreover have "name_selectbox df None = Inr (Some (columns df ! 0))"
    using assms Nil by (simp add: name_selectbox_def default_name_index_def selectbox_def)
  ultimately show ?thesis using assms by auto
next
  case (Cons p ps)
  then have "filter (\<lambda>col. contains (lower col) ''name'') (columns df) = p # ps"
    by (simp add: possible_names_def)
  from first_match_get_loc [OF this] obtain k where k: "get_loc (columns df) p = Some k"
    "k < length (columns df)" "columns df ! k = p" "contains (lower p) ''name''"
    "\<forall>j<k. \<not> contains (lower (columns df ! j)) ''name''" by blast
  have "name_selectbox df None = Inr (Some (columns df ! k))"
    using Cons k(1,2) by (simp add: name_selectbox_def default_name_index_def selectbox_def)
  moreover have "\<exists>c\<in>set (columns df). contains_ci c ''name''"
    using k(2,3,4) by (auto simp: contains_ci_name)
  ultimately show ?thesis using k by (auto simp: contains_ci_name)
qed

theorem default_name_column_witness:
  "load_table short_csv = Inr short_table
   \<and> columns short_table = [''Row_ID'', ''ID'', ''Name'']
   \<and> name_selectbox short_table None = Inr (Some ''Name'')
   \<and> load_table keyed_csv = Inr keyed_csv
   \<and> name_selectbox keyed_csv None = Inr (Some ''Row_ID'')"
  using default_name_column [of short_csv short_table]
    default_name_column [of keyed_csv keyed_csv]
  by (simp add: load_table_def reset_index_def rename_index_def short_csv_def short_table_def
      keyed_csv_def name_selectbox_def default_name_index_def possible_names_def selectbox_def
      lower_def isupper_def)

section \<open>A column \<^verbatim>\<open>Row_ID\<close> of the file itself\<close>

text \<open>
  Claim C10. When the uploaded file has a column \<^verbatim>\<open>Row_ID\<close> of its own, the loader
  keeps the table as it is, and that column is handled as the identifier whatever its
  cells hold: the detail view never puts a block for it on the page, the question
  selector does not list it and never yields it, even when it is what the user asks for.
\<close>

theorem Row_ID_column_hidden:
  assumes "''Row_ID'' \<in> set (columns read)"
  shows "load_table read = Inr read
       \<and> (\<forall>v. Response_Box (StrV ''Row_ID'') v \<notin> set (page (detail_view read name_col choice s)))
       \<and> ''Row_ID'' \<notin> set (available_cols read)
       \<and> (\<forall>opts sel. Question_Selector opts sel \<in> set (page (question_view read name_col qchoice s))
            \<longrightarrow> ''Row_ID'' \<notin> set opts \<and> sel \<noteq> Some ''Row_ID'')"
proof -
  have a: "''Row_ID'' \<notin> set (available_cols read)" by (simp add: available_cols_def)
  have q: "''Row_ID'' \<notin> set opts \<and> sel \<noteq> Some ''Row_ID''"
    if "Question_Selector opts sel \<in> set (page (question_view read name_col qchoice s))"
    for opts sel
  proof -
    from question_view_selector [OF that] have o: "opts = available_cols read"
      and sb: "selectbox (available_cols read) (Some 0) qchoice = Inr sel" by simp_all
    have "sel \<noteq> Some ''Row_ID''"
    proof
      assume "sel = Some ''Row_ID''"
      with sb have "''Row_ID'' \<in> set (available_cols read)" by (simp add: selectbox_member)
      with a show False by simp
    qed
    with o a show ?thesis by simp
  qed
  from assms have "load_table read = Inr read" by (rule load_table_keeps_Row_ID)
  with a q show ?thesis by (simp add: detail_view_skips_Row_ID)
qed

theorem Row_ID_column_hidden_witness:
  "''Row_ID'' \<in> set (columns keyed_csv)
   \<and> load_table keyed_csv = Inr keyed_csv
   \<and> page (detail_view keyed_csv (Some ''Answer'') None initial_state)
       = [Row_Selector [(StrV ''yes'', NumV 0), (NaN, NumV 1)] (Some (NumV 0)) (Some (NumV 0)),
          Respondent_Header (StrV ''yes''),
          Response_Box (StrV ''Answer'') (StrV ''yes'')]
   \<and> page (question_view keyed_csv (Some ''Answer'') (Some ''Row_ID'') initial_state)
       = [Question_Selector [''Answer''] (Some ''Answer''), Question_Header (Some ''Answer''),
          Response_Box (StrV ''yes'') (StrV ''yes'')]"
  using Row_ID_column_hidden [of keyed_csv "Some ''Answer''" None initial_state "Some ''Row_ID''"]
  by (simp add: keyed_csv_def initial_state_def detail_view_def question_view_def selectbox_def
      row_selectbox_def index_arg_def
      get_label_def iloc_def series_get_def available_cols_def emit_def finish_def isna_def)

section \<open>Selection state\<close>



text \<open>
  Claim C5. In a pass that finds a click on row \<open>i\<close> pending, no widget sees the state
  from before the click: every view-mode radio on the page shows the detail view and
  every row selector on the page was built with the index \<open>i\<close>, whatever mode and row
  the session state held when the pass started. When the table loads, the radio is on
  the page, and the pass is the same as a pass started from the state with the click
  already applied.
\<close>

theorem click_applied_before_widgets:
  assumes click: "response_grid s = Some (i # rest)"
  shows "(\<forall>m. View_Radio m \<in> set (page (main src w s)) \<longrightarrow> m = Individual_Detail_View)
       \<and> (\<forall>labels idx v. Row_Selector labels idx v \<in> set (page (main src w s)) \<longrightarrow> idx = Some (NumV (int i)))
       \<and> (load_table read = Inr df \<longrightarrow>
            View_Radio Individual_Detail_View \<in> set (page (main (Csv (Inr read)) w s))
            \<and> main (Csv (Inr read)) w s =
                main (Csv (Inr read)) w
                  (s\<lparr>selected_index := Some (NumV (int i)),
                     view_mode_selector := Some Individual_Detail_View\<rparr>))"
proof -
  let ?s1 = "s\<lparr>selected_index := Some (NumV (int i)),
                 view_mode_selector := Some Individual_Detail_View\<rparr>"
  note h = handle_selection_click [OF click]
  have r: "radio (handle_selection s) = Individual_Detail_View" by (simp add: h radio_def)
  have x: "selected_index (handle_selection s) = Some (NumV (int i))" by (simp add: h)
  have a: "m = Individual_Detail_View" if "View_Radio m \<in> set (page (main src w s))" for m
    using main_page [OF that] r by auto
  have b: "idx = Some (NumV (int i))" if "Row_Selector labels idx v \<in> set (page (main src w s))" for labels idx v
    using main_page [OF that] x by auto
  have c: "View_Radio Individual_Detail_View \<in> set (page (main (Csv (Inr read)) w s))
      \<and> main (Csv (Inr read)) w s = main (Csv (Inr read)) w ?s1"
    if l: "load_table read = Inr df"
  proof -
    from l have "columns df \<noteq> []" by (rule load_table_columns_nonempty)
    from name_selectbox_column [OF this, of "name_choice w"] obtain name_col
      where n: "name_selectbox df (name_choice w) = Inr name_col" by blast
    have "response_grid ?s1 = Some (i # rest)" using click by simp
    from handle_selection_click [OF this] have h1: "handle_selection ?s1 = handle_selection s"
      by (simp add: h)
    have "main (Csv (Inr read)) w s = main (Csv (Inr read)) w ?s1"
      by (simp only: main_loaded [OF l n] h1)
    moreover have "View_Radio Individual_Detail_View \<in> set (page (main (Csv (Inr read)) w s))"
      by (simp add: main_loaded [OF l n] r emit_def)
    ultimately show ?thesis by simp
  qed
  from a b c show ?thesis by blast
qed

theorem click_applied_before_widgets_witness:
  "response_grid \<lparr>selected_index = Some (NumV 0), view_mode_selector = Some Question_Analysis_View,
                   response_grid = Some [1]\<rparr> = Some [1]
   \<and> load_table short_csv = Inr short_table
   \<and> page (main (Csv (Inr short_csv)) no_input
        \<lparr>selected_index = Some (NumV 0), view_mode_selector = Some Question_Analysis_View,
         response_grid = Some [1]\<rparr>) =
       [Name_Selector [''Row_ID'', ''ID'', ''Name''] (Some ''Name''),
        View_Radio Individual_Detail_View,
        Row_Selector [(StrV ''Frank'', NumV 0), (StrV ''Grace'', NumV 1)]
          (Some (NumV 1)) (Some (NumV 1)),
        Respondent_Header (StrV ''Grace''),
        Response_Box (StrV ''ID'') (NumV 18),
        Response_Box (StrV ''Name'') (StrV ''Grace'')]"
  using click_applied_before_widgets
    [of "\<lparr>selected_index = Some (NumV 0), view_mode_selector = Some Question_Analysis_View,
          response_grid = Some [1]\<rparr>" 1 "[]" "Csv (Inr short_csv)" no_input short_csv short_table]
  by (simp add: main_def load_table_def reset_index_def rename_index_def short_csv_def
      short_table_def no_input_def name_selectbox_def row_selectbox_def index_arg_def
      default_name_index_def possible_names_def lower_def isupper_def selectbox_def
      handle_selection_def radio_def detail_view_def get_label_def iloc_def series_get_def
      emit_def finish_def isna_def)



section \<open>A selected row beyond the end of the table\<close>

text \<open>
  Claim C1, as stated, fails. A click on the last row of a table of five rows stores the
  index 4. With a file of two rows loaded next, the pass in the detail view hands the
  index 4 to the row selector, which rejects it: the pass ends there with the error, the
  stored index is still 4, and nothing of any row is on the page.
\<close>

theorem stale_index_not_clamped_counterexample:
  "selected_index (session (main (Csv (Inr scores_csv)) no_input
       (initial_state\<lparr>response_grid := Some [4]\<rparr>))) = Some (NumV 4)
   \<and> length (rows short_csv) = 2
   \<and> main (Csv (Inr short_csv)) no_input
        \<lparr>selected_index = Some (NumV 4), view_mode_selector = Some Individual_Detail_View,
         response_grid = None\<rparr> =
       \<lparr>session = \<lparr>selected_index = Some (NumV 4), view_mode_selector = Some Individual_Detail_View,
                   response_grid = None\<rparr>,
        page = [Name_Selector [''Row_ID'', ''ID'', ''Name''] (Some ''Name''),
                View_Radio Individual_Detail_View],
        outcome = Raised StreamlitAPIException\<rparr>"
  by (simp add: main_def load_table_def reset_index_def rename_index_def scores_csv_def
      short_csv_def no_input_def initial_state_def name_selectbox_def row_selectbox_def
      index_arg_def
      default_name_index_def possible_names_def lower_def isupper_def selectbox_def
      handle_selection_def radio_def detail_view_def get_label_def iloc_def series_get_def
      emit_def finish_def isna_def)

text \<open>
  Claim C1, amended. On a table with at least one row, whose row labels are the
  positions, a stored index inside the table is kept as it is and its row is rendered,
  and the pass completes; a stored index outside the table, negative or too large, is
  not set to 0: the row selector rejects it, the pass stops with the error before
  anything is rendered, and the stored index remains, whatever the user has picked in
  the selector.
\<close>

theorem detail_view_index_not_clamped:
  assumes "wf_table df" and "default_index df" and "kn < length (columns df)"
    and "selected_index s = Some (NumV k)" and "rows df \<noteq> []"
  shows "if 0 \<le> k \<and> k < int (length (rows df))
         then detail_view df (Some (columns df ! kn)) None s =
                \<lparr>session = s,
                 page = Row_Selector
                          (map (\<lambda>j. (rows df ! j ! kn, NumV (int j))) [0..<length (rows df)])
                          (Some (NumV k)) (Some (NumV k))
                        # Respondent_Header (rows df ! nat k ! kn) # spec_detail_blocks df (nat k),
                 outcome = Completed\<rparr>
         else detail_view df (Some (columns df ! kn)) choice s =
                \<lparr>session = s, page = [], outcome = Raised StreamlitAPIException\<rparr>"
proof (cases "0 \<le> k \<and> k < int (length (rows df))")
  case True
  then have "row_selectbox df (selected_index s) None = Inr (Some (NumV (int (nat k))))"
    using assms(2) by (simp add: assms(4) row_selectbox_default)
  from detail_view_row [OF assms(1,2,3) this] True assms(4) show ?thesis by simp
next
  case False
  have d: "distinct (columns df)"
    and n: "length (row_labels df) = length (rows df)"
    and a: "list_all (\<lambda>r. length r = length (columns df)) (rows df)"
    using assms(1) by (simp_all add: wf_table_def)
  have "format_options (get_label df (Some (columns df ! kn)))
          (map (\<lambda>j. NumV (int j)) [0..<length (rows df)]) =
      Inr (map (\<lambda>j. (rows df ! j ! kn, NumV (int j))) [0..<length (rows df)])"
    using d a assms(3) by (rule format_options_labels) auto
  then have "format_options (get_label df (Some (columns df ! kn))) (row_labels df) =
      Inr (map (\<lambda>j. (rows df ! j ! kn, NumV (int j))) [0..<length (rows df)])"
    using assms(2) by (simp add: default_index_def)
  moreover have "row_selectbox df (selected_index s) choice = Inl StreamlitAPIException"
    using row_selectbox_rejects [OF n assms(5) False] by (simp add: assms(4))
  ultimately have e: "detail_view df (Some (columns df ! kn)) choice s =
      \<lparr>session = s, page = [], outcome = Raised StreamlitAPIException\<rparr>"
    by (simp add: detail_view_def)
  from False have c: "(0 \<le> k \<and> k < int (length (rows df))) = False" by blast
  show ?thesis unfolding c using e by simp
qed

theorem detail_view_index_not_clamped_witness:
  "wf_table short_table \<and> default_index short_table
   \<and> (2::nat) < length (columns short_table) \<and> rows short_table \<noteq> []
   \<and> \<not> ((0::int) \<le> 4 \<and> 4 < int (length (rows short_table)))
   \<and> detail_view short_table (Some ''Name'') None
        \<lparr>selected_index = Some (NumV 4), view_mode_selector = Some Individual_Detail_View,
         response_grid = None\<rparr> =
       \<lparr>session = \<lparr>selected_index = Some (NumV 4),
                   view_mode_selector = Some Individual_Detail_View, response_grid = None\<rparr>,
        page = [], outcome = Raised StreamlitAPIException\<rparr>
   \<and> ((0::int) \<le> 1 \<and> 1 < int (length (rows short_table)))
   \<and> outcome (detail_view short_table (Some ''Name'') None
        \<lparr>selected_index = Some (NumV 1), view_mode_selector = Some Individual_Detail_View,
         response_grid = None\<rparr>) = Completed"
  using detail_view_index_not_clamped [of short_table 2
      "\<lparr>selected_index = Some (NumV 4), view_mode_selector = Some Individual_Detail_View,
        response_grid = None\<rparr>" 4 None]
    detail_view_index_not_clamped [of short_table 2
      "\<lparr>selected_index = Some (NumV 1), view_mode_selector = Some Individual_Detail_View,
        response_grid = None\<rparr>" 1 None]
  by (simp add: short_table_def wf_table_def default_index_def)

end
